theory Spec2Isabelle
  imports Main
begin

section \<open>JavaScript typed arrays\<close>

text \<open>
  The functions of \<^verbatim>\<open>utils.ts\<close> and \<^verbatim>\<open>solid-polygon-layer.ts\<close> work on typed
  arrays. A typed array is its constructor together with its elements. JavaScript numbers
  that are array lengths, indices and offsets are modelled as unbounded integers (the
  source computes them in doubles, which are exact on the integers it meets); the
  conversions a typed array applies when a number is stored are written out.
\<close>

datatype ArrayCtor =
    Uint8Array | Uint8ClampedArray | Uint16Array | Uint32Array
  | Int8Array | Int16Array | Int32Array | Float32Array | Float64Array

record 'a TypedArray =
  ctor :: ArrayCtor
  elems :: "'a list"

datatype error = RangeError | TypeError | AssertionError

text \<open>\<^verbatim>\<open>xs[i]\<close>: reading outside the array gives \<^verbatim>\<open>undefined\<close>, here \<open>None\<close>.\<close>

definition js_get :: "'a list \<Rightarrow> int \<Rightarrow> 'a option" where
  "js_get xs i = (if 0 \<le> i \<and> i < int (length xs) then Some (xs ! nat i) else None)"

text \<open>\<^verbatim>\<open>xs[i] = v\<close> on a typed array: a write outside the array is dropped.\<close>

definition ta_set :: "'a list \<Rightarrow> int \<Rightarrow> 'a \<Rightarrow> 'a list" where
  "ta_set xs i v = (if 0 \<le> i \<and> i < int (length xs) then xs[nat i := v] else xs)"

text \<open>
  \<^verbatim>\<open>new C(len)\<close>: a zero-filled array. \<^verbatim>\<open>undefined\<close> and \<^verbatim>\<open>NaN\<close> (here \<open>None\<close>)
  convert to length 0; a negative length raises RangeError. The largest length an engine
  allocates is not modelled.
\<close>

definition new_elems :: "int option \<Rightarrow> error + ('a::zero) list" where
  "new_elems len =
     (case len of
        None \<Rightarrow> Inr []
      | Some n \<Rightarrow> if n < 0 then Inl RangeError else Inr (replicate (nat n) 0))"

text \<open>The value stored when an integer number is written to an unsigned array.\<close>

fun ctor_bits :: "ArrayCtor \<Rightarrow> nat" where
  "ctor_bits Uint8Array = 8"
| "ctor_bits Uint8ClampedArray = 8"
| "ctor_bits Uint16Array = 16"
| "ctor_bits Uint32Array = 32"
| "ctor_bits Int8Array = 8"
| "ctor_bits Int16Array = 16"
| "ctor_bits Int32Array = 32"
| "ctor_bits Float32Array = 32"
| "ctor_bits Float64Array = 64"

definition ToUint :: "ArrayCtor \<Rightarrow> int \<Rightarrow> int" where
  "ToUint c v = v mod 2 ^ ctor_bits c"

text \<open>Storing into a \<^verbatim>\<open>Uint8ClampedArray\<close>: \<^verbatim>\<open>undefined\<close> becomes 0, integers are clamped.\<close>

definition ToUint8Clamp :: "int option \<Rightarrow> int" where
  "ToUint8Clamp v = (case v of None \<Rightarrow> 0 | Some n \<Rightarrow> max 0 (min 255 n))"

text \<open>
  Storing into an \<^verbatim>\<open>Int32Array\<close> a value read from an \<^verbatim>\<open>Int32Array\<close>:
  \<^verbatim>\<open>undefined\<close> becomes 0, an element is stored as it is.
\<close>

definition ToInt32 :: "int option \<Rightarrow> int" where
  "ToInt32 v = (case v of None \<Rightarrow> 0 | Some n \<Rightarrow> n)"

text \<open>
  Storing into an array a value read from an array of the same constructor: an element is
  stored as it is; \<^verbatim>\<open>undefined\<close> becomes \<open>ofUndefined\<close>, the element the array type
  keeps for it (0 in the integer arrays, NaN in the float arrays).
\<close>

definition ToElement :: "'a \<Rightarrow> 'a option \<Rightarrow> 'a" where
  "ToElement ofUndefined v = (case v of None \<Rightarrow> ofUndefined | Some x \<Rightarrow> x)"


section \<open>utils.ts: broadcasting and inverting offsets\<close>

text \<open>
  \<^verbatim>\<open>expandArrayToCoords(input, size, geomOffsets)\<close>. \<open>size'\<close> is the channel count
  \<^verbatim>\<open>size\<close> (a list size, or 1). Each of the three nested iterations of the source is a fold;
  inside the outer loop \<^verbatim>\<open>geomIdx + 1\<close> is an index of \<^verbatim>\<open>geomOffsets\<close>.
\<close>

definition expandGeometry ::
  "'a \<Rightarrow> 'a list \<Rightarrow> nat \<Rightarrow> int list \<Rightarrow> nat \<Rightarrow> 'a list \<Rightarrow> 'a list" where
  \<comment> \<open>the body of the loop over \<^verbatim>\<open>geomIdx\<close>\<close>
  "expandGeometry ofUndefined input size' geomOffsets geomIdx outputArray =
     (let lastCoordIdx = geomOffsets ! geomIdx;
          nextCoordIdx = geomOffsets ! (geomIdx + 1)
      in fold (\<lambda>coordIdx out.
           fold (\<lambda>i out.
              ta_set out (coordIdx * int size' + int i)
                (ToElement ofUndefined (js_get input (int geomIdx * int size' + int i))))
             [0..<size'] out)
           [lastCoordIdx..nextCoordIdx - 1] outputArray)"

definition expandArrayToCoords ::
  "'a \<Rightarrow> ('a::zero) TypedArray \<Rightarrow> nat \<Rightarrow> int list \<Rightarrow> error + 'a TypedArray" where
  "expandArrayToCoords ofUndefined input size' geomOffsets =
     (let numCoords = js_get geomOffsets (int (length geomOffsets) - 1)
      in case new_elems (map_option (\<lambda>n. n * int size') numCoords) of
           Inl e \<Rightarrow> Inl e
         | Inr outputArray \<Rightarrow>
             Inr \<lparr>ctor = ctor input,
                  elems = fold (expandGeometry ofUndefined (elems input) size' geomOffsets)
                            [0..<length geomOffsets - 1] outputArray\<rparr>)"

text \<open>\<^verbatim>\<open>invertOffsets(offsets)\<close>: the constructor chosen from \<^verbatim>\<open>offsets.length\<close>.\<close>

definition arrayConstructor :: "nat \<Rightarrow> ArrayCtor" where
  "arrayConstructor len =
     (if len < 2 ^ 8 then Uint8Array
      else if len < 2 ^ 16 then Uint16Array
      else Uint32Array)"

definition invertOffsets :: "int list \<Rightarrow> error + int TypedArray" where
  "invertOffsets offsets =
     (let largestOffset = js_get offsets (int (length offsets) - 1)
      in case new_elems largestOffset of
           Inl e \<Rightarrow> Inl e
         | Inr invertedOffsets \<Rightarrow>
             Inr \<lparr>ctor = arrayConstructor (length offsets),
                  elems =
                    fold (\<lambda>arrayIdx inverted.
                       let thisOffset = offsets ! arrayIdx;
                           nextOffset = offsets ! (arrayIdx + 1)
                       in fold (\<lambda>offset inverted.
                            ta_set inverted offset
                              (ToUint (arrayConstructor (length offsets)) (int arrayIdx)))
                            [thisOffset..nextOffset - 1] inverted)
                      [0..<length offsets - 1] invertedOffsets\<rparr>)"

text \<open>
  The width the specification asks for: the smallest of 8, 16 and 32 bits that can
  represent a number of source items.
\<close>

definition can_represent :: "nat \<Rightarrow> nat \<Rightarrow> bool" where
  "can_represent w n = (n < 2 ^ w)"

definition spec_smallest_width :: "nat \<Rightarrow> nat" where
  "spec_smallest_width n =
     (if can_represent 8 n then 8 else if can_represent 16 n then 16 else 32)"

text \<open>An offsets array as the specification has it: non-decreasing, starting at 0.\<close>

definition wellformed :: "int list \<Rightarrow> bool" where
  "wellformed offs = (offs \<noteq> [] \<and> sorted offs \<and> offs ! 0 = 0)"

text \<open>
  The source indices an inverted array has to hold fit \<^verbatim>\<open>Uint32Array\<close>, its widest
  element type: the offsets array delimits at most \<open>2 ^ 32\<close> source items (an
  \<^verbatim>\<open>Int32Array\<close> of the engines this code runs on is shorter).
\<close>

definition indices_fit :: "int list \<Rightarrow> bool" where
  "indices_fit offs = (length offs - 1 \<le> 2 ^ 32)"


section \<open>utils.ts: resolved offsets\<close>

text \<open>
  An Arrow \<^verbatim>\<open>Data\<close> node: its type id (\<open>Int'\<close> is \<^verbatim>\<open>Type.Int\<close>), the list size of
  a fixed-size-list type, its offsets, its values buffer and its children.
\<close>

datatype TypeId =
    Null | Int' | Float | Binary | Utf8 | Bool | Decimal | Date | Time | Timestamp
  | Interval | List | Struct | Union | FixedSizeBinary | FixedSizeList | Map | Dictionary

datatype 'a Data =
  Data (typeId: TypeId) (listSize: nat) (valueOffsets: "int list")
       (values': "'a TypedArray") (children: "'a Data list")

text \<open>\<^verbatim>\<open>data.children[0]\<close>; \<open>None\<close> is \<^verbatim>\<open>undefined\<close>.\<close>

definition getPolygonChild :: "'a Data \<Rightarrow> 'a Data option" where
  "getPolygonChild data = js_get (children data) 0"

definition getMultiLineStringChild :: "'a Data \<Rightarrow> 'a Data option" where
  "getMultiLineStringChild data = js_get (children data) 0"

definition getMultiPolygonChild :: "'a Data \<Rightarrow> 'a Data option" where
  "getMultiPolygonChild data = js_get (children data) 0"

text \<open>
  The resolvers. Reading \<^verbatim>\<open>valueOffsets\<close> of a missing child raises TypeError. The
  loop index \<open>i\<close> is an index of \<^verbatim>\<open>geomOffsets\<close>; the index into the inner offsets
  may fall outside them.
\<close>

definition getMultiLineStringResolvedOffsets :: "'a Data \<Rightarrow> error + int list" where
  "getMultiLineStringResolvedOffsets data =
     (let geomOffsets = valueOffsets data
      in case getMultiLineStringChild data of
           None \<Rightarrow> Inl TypeError
         | Some lineStringData \<Rightarrow>
             let ringOffsets = valueOffsets lineStringData;
                 resolvedRingOffsets = replicate (length geomOffsets) 0
             in Inr (fold (\<lambda>i resolved.
                        ta_set resolved (int i) (ToInt32 (js_get ringOffsets (geomOffsets ! i))))
                      [0..<length resolvedRingOffsets] resolvedRingOffsets))"

definition getPolygonResolvedOffsets :: "'a Data \<Rightarrow> error + int list" where
  "getPolygonResolvedOffsets data =
     (let geomOffsets = valueOffsets data
      in case getPolygonChild data of
           None \<Rightarrow> Inl TypeError
         | Some ringData \<Rightarrow>
             let ringOffsets = valueOffsets ringData;
                 resolvedRingOffsets = replicate (length geomOffsets) 0
             in Inr (fold (\<lambda>i resolved.
                        ta_set resolved (int i) (ToInt32 (js_get ringOffsets (geomOffsets ! i))))
                      [0..<length resolvedRingOffsets] resolvedRingOffsets))"

definition getMultiPolygonResolvedOffsets :: "'a Data \<Rightarrow> error + int list" where
  "getMultiPolygonResolvedOffsets data =
     (case getMultiPolygonChild data of
        None \<Rightarrow> Inl TypeError
      | Some polygonData \<Rightarrow>
          (case getPolygonChild polygonData of
             None \<Rightarrow> Inl TypeError
           | Some ringData \<Rightarrow>
               let geomOffsets = valueOffsets data;
                   polygonOffsets = valueOffsets polygonData;
                   ringOffsets = valueOffsets ringData;
                   resolvedRingOffsets = replicate (length geomOffsets) 0
               in Inr (fold (\<lambda>i resolved.
                          ta_set resolved (int i)
                            (ToInt32 (case js_get polygonOffsets (geomOffsets ! i) of
                                        None \<Rightarrow> None
                                      | Some j \<Rightarrow> js_get ringOffsets j)))
                        [0..<length resolvedRingOffsets] resolvedRingOffsets)))"

text \<open>
  A chain of offsets arrays: every element of the outer array is an index of the inner
  one, as the start of an item in the child domain is.
\<close>

definition indexes_into :: "int list \<Rightarrow> int list \<Rightarrow> bool" where
  "indexes_into outer inner = (\<forall>x\<in>set outer. 0 \<le> x \<and> x < int (length inner))"


text \<open>
  A multi-polygon chunk of one feature with two polygons; the polygons have one and two
  rings, the middle ring is empty: ring offsets \<open>[0, 4, 4, 7]\<close>.
\<close>

definition scenario_rings :: "int Data" where
  "scenario_rings = Data List 0 [0, 4, 4, 7] \<lparr>ctor = Float64Array, elems = []\<rparr> []"

definition scenario_polygon :: "int Data" where
  "scenario_polygon =
     Data List 0 [0, 1, 3] \<lparr>ctor = Float64Array, elems = []\<rparr> [scenario_rings]"

definition scenario_multipolygon :: "int Data" where
  "scenario_multipolygon =
     Data List 0 [0, 2] \<lparr>ctor = Float64Array, elems = []\<rparr> [scenario_polygon]"


section \<open>solid-polygon-layer.ts: picking colors\<close>

text \<open>
  \<^verbatim>\<open>encodePickingColors(geomToCoordOffsets, encodePickingColor)\<close>. The callback writes
  the color of a feature into the array \<^verbatim>\<open>pickingColor\<close> it is handed: it is a function
  from the feature index and the array to the array afterwards. The loop carries the
  buffer and that array.
\<close>

definition encodePickingColors ::
  "int list \<Rightarrow> (nat \<Rightarrow> int list \<Rightarrow> int list) \<Rightarrow> error + int TypedArray" where
  "encodePickingColors geomToCoordOffsets encodePickingColor =
     (let largestOffset = js_get geomToCoordOffsets (int (length geomToCoordOffsets) - 1)
      in case new_elems largestOffset of
           Inl e \<Rightarrow> Inl e
         | Inr pickingColors0 \<Rightarrow>
             Inr \<lparr>ctor = Uint8ClampedArray,
                  elems = fst (fold (\<lambda>arrayIdx (pickingColors, pickingColor0).
                       let thisOffset = geomToCoordOffsets ! arrayIdx;
                           nextOffset = geomToCoordOffsets ! (arrayIdx + 1);
                           pickingColor = encodePickingColor arrayIdx pickingColor0
                       in (fold (\<lambda>offset colors.
                             ta_set
                               (ta_set
                                  (ta_set colors (offset * 3)
                                     (ToUint8Clamp (js_get pickingColor 0)))
                                  (offset * 3 + 1) (ToUint8Clamp (js_get pickingColor 1)))
                               (offset * 3 + 2) (ToUint8Clamp (js_get pickingColor 2)))
                             [thisOffset..nextOffset - 1] pickingColors,
                           pickingColor))
                      [0..<length geomToCoordOffsets - 1] (pickingColors0, []))\<rparr>)"

text \<open>
  The encoder of the host library, \<^verbatim>\<open>Layer.encodePickingColor\<close>: the bytes of
  \<open>i + 1\<close>, low byte first, written to the first three slots of the array.
\<close>

definition layerEncodePickingColor :: "nat \<Rightarrow> int list \<Rightarrow> int list" where
  "layerEncodePickingColor i target =
     [(int i + 1) mod 256, ((int i + 1) div 256) mod 256, ((int i + 1) div 65536) mod 256]
       @ drop 3 target"

section \<open>utils.ts: assignAccessor\<close>

text \<open>
  The user's input for one accessor: \<^verbatim>\<open>undefined\<close>, an Arrow \<^verbatim>\<open>Vector\<close> (its chunks
  \<^verbatim>\<open>propInput.data\<close>), or any other value.
\<close>

datatype ('a, 'v) PropInput = Undefined | Vector "'a Data list" | Value 'v

text \<open>
  An entry of \<^verbatim>\<open>props.data.attributes\<close>; \<open>normalized = None\<close> is an entry without the
  key \<^verbatim>\<open>normalized\<close>.
\<close>

record 'a Attribute =
  attr_value :: "'a TypedArray"
  attr_size :: nat
  normalized :: "bool option"

text \<open>
  The props object of a sub-layer: its own keys (\<^verbatim>\<open>props[propName]\<close>) and the keys of
  \<^verbatim>\<open>props.data.attributes\<close>, which every caller has built before the call.
\<close>

record ('a, 'v) Props =
  toplevel :: "string \<rightharpoonup> 'v"
  attributes :: "string \<rightharpoonup> 'a Attribute"

text \<open>
  \<^verbatim>\<open>assignAccessor\<close> mutates \<^verbatim>\<open>props\<close>; the model returns the props afterwards.
  \<^verbatim>\<open>geomCoordOffsets = None\<close> is \<^verbatim>\<open>undefined\<close> or \<^verbatim>\<open>null\<close> (an array is truthy).
  \<^verbatim>\<open>isFixedSizeList\<close> and \<^verbatim>\<open>isFloat\<close> test the type id and are false on
  \<^verbatim>\<open>undefined\<close>; \<^verbatim>\<open>assert\<close> raises when its condition is false.
\<close>

definition assignAccessor ::
  "'a \<Rightarrow> ('a::zero, 'v) Props \<Rightarrow> string \<Rightarrow> ('a, 'v) PropInput \<Rightarrow> int \<Rightarrow> int list option
     \<Rightarrow> error + ('a, 'v) Props" where
  "assignAccessor ofUndefined props propName propInput chunkIdx geomCoordOffsets =
     (case propInput of
        Undefined \<Rightarrow> Inr props
      | Vector chunks \<Rightarrow>
          (case js_get chunks chunkIdx of
             None \<Rightarrow> Inr props
           | Some columnData \<Rightarrow>
               if typeId columnData = FixedSizeList then
                 (if length (children columnData) \<noteq> 1 then Inl AssertionError
                  else
                    case (case geomCoordOffsets of
                            None \<Rightarrow> Inr (values' (children columnData ! 0))
                          | Some offs \<Rightarrow>
                              expandArrayToCoords ofUndefined (values' (children columnData ! 0))
                                (listSize columnData) offs) of
                      Inl e \<Rightarrow> Inl e
                    | Inr vals \<Rightarrow>
                        Inr (props\<lparr>attributes := (attributes props)(propName \<mapsto>
                               \<lparr>attr_value = vals, attr_size = listSize columnData,
                                normalized = Some True\<rparr>)\<rparr>))
               else if typeId columnData = Float then
                 (case (case geomCoordOffsets of
                          None \<Rightarrow> Inr (values' columnData)
                        | Some offs \<Rightarrow>
                            expandArrayToCoords ofUndefined (values' columnData) 1 offs) of
                    Inl e \<Rightarrow> Inl e
                  | Inr vals \<Rightarrow>
                      Inr (props\<lparr>attributes := (attributes props)(propName \<mapsto>
                             \<lparr>attr_value = vals, attr_size = 1, normalized = None\<rparr>)\<rparr>))
               else Inr props)
      | Value v \<Rightarrow> Inr (props\<lparr>toplevel := (toplevel props)(propName \<mapsto> v)\<rparr>))"


text \<open>Example inputs: empty props, an integer column, a color column, a float column.\<close>

definition scenario_props :: "(int, int) Props" where
  "scenario_props = \<lparr>toplevel = Map.empty, attributes = Map.empty\<rparr>"

definition scenario_int_column :: "int Data" where
  "scenario_int_column = Data Int' 0 [] \<lparr>ctor = Int32Array, elems = [5, 6]\<rparr> []"

definition scenario_color_column :: "int Data" where
  "scenario_color_column =
     Data FixedSizeList 3 [] \<lparr>ctor = Uint8Array, elems = []\<rparr>
       [Data Float 0 [] \<lparr>ctor = Float32Array, elems = [1, 0, 0, 0, 1, 0]\<rparr> []]"

definition scenario_float_column :: "int Data" where
  "scenario_float_column = Data Float 0 [] \<lparr>ctor = Float32Array, elems = [10, 20]\<rparr> []"


section \<open>getPickingInfo\<close>

text \<open>
  A record batch (its row count and its \<^verbatim>\<open>get\<close>) and a table: its batches and the
  private array \<^verbatim>\<open>_offsets\<close> that the source reads. A number that may be
  \<^verbatim>\<open>undefined\<close> or \<^verbatim>\<open>NaN\<close> is an \<open>int option\<close>.
\<close>

record 'r RecordBatch =
  numRows :: nat
  get :: "int option \<Rightarrow> 'r"

record 'r Table =
  batches :: "'r RecordBatch list"
  table_offsets :: "int list"

record 'r PickingInfo =
  index :: "int option"
  object :: "'r option"

record SubLayerProps =
  recordBatchIdx :: int
  invertedGeomOffsets :: "int TypedArray option"

definition js_add :: "int option \<Rightarrow> int option \<Rightarrow> int option" where
  "js_add a b = (case (a, b) of (Some x, Some y) \<Rightarrow> Some (x + y) | _ \<Rightarrow> None)"

text \<open>\<^verbatim>\<open>GeoArrowSolidPolygonLayer.getPickingInfo\<close>; a call on a missing batch raises.\<close>

definition SolidPolygon_getPickingInfo ::
  "'r Table \<Rightarrow> 'r PickingInfo \<Rightarrow> SubLayerProps \<Rightarrow> error + 'r PickingInfo" where
  "SolidPolygon_getPickingInfo table info sourceLayer =
     (let index0 =
            (case invertedGeomOffsets sourceLayer of
               None \<Rightarrow> index info
             | Some inverted \<Rightarrow>
                 (case index info of None \<Rightarrow> None | Some i \<Rightarrow> js_get (elems inverted) i))
      in case js_get (batches table) (recordBatchIdx sourceLayer) of
           None \<Rightarrow> Inl TypeError
         | Some batch \<Rightarrow>
             let row = get batch index0;
                 currentBatchOffset = js_get (table_offsets table) (recordBatchIdx sourceLayer)
             in Inr (info\<lparr>index := js_add index0 currentBatchOffset, object := Some row\<rparr>))"

text \<open>\<^verbatim>\<open>GeoArrowArcLayer.getPickingInfo\<close>.\<close>

definition Arc_getPickingInfo ::
  "'r Table \<Rightarrow> 'r PickingInfo \<Rightarrow> SubLayerProps \<Rightarrow> error + 'r PickingInfo" where
  "Arc_getPickingInfo table info sourceLayer =
     (let index0 = index info
      in case js_get (batches table) (recordBatchIdx sourceLayer) of
           None \<Rightarrow> Inl TypeError
         | Some batch \<Rightarrow>
             let row = get batch index0;
                 currentBatchOffset = js_get (table_offsets table) (recordBatchIdx sourceLayer)
             in Inr (info\<lparr>index := js_add index0 currentBatchOffset, object := Some row\<rparr>))"

text \<open>
  The cumulative element count of the record batches before batch \<open>b\<close>, and the
  invariant of the table library that \<^verbatim>\<open>_offsets\<close> holds these counts.
\<close>

definition cumulative_count :: "'r Table \<Rightarrow> nat \<Rightarrow> nat" where
  "cumulative_count table b = sum_list (map numRows (take b (batches table)))"

definition chunk_offsets :: "'r Table \<Rightarrow> bool" where
  "chunk_offsets table =
     (table_offsets table = map (\<lambda>b. int (cumulative_count table b)) [0..<length (batches table) + 1])"

text \<open>Example inputs: a table of two batches of 3 and 2 rows, whose rows are their indices.\<close>

definition scenario_table :: "(int option) Table" where
  "scenario_table =
     \<lparr>batches = [\<lparr>numRows = 3, get = (\<lambda>i. i)\<rparr>, \<lparr>numRows = 2, get = (\<lambda>i. i)\<rparr>],
      table_offsets = [0, 3, 5]\<rparr>"

definition scenario_sublayer :: SubLayerProps where
  "scenario_sublayer =
     \<lparr>recordBatchIdx = 1,
      invertedGeomOffsets = Some \<lparr>ctor = Uint8Array, elems = [0, 0, 1]\<rparr>\<rparr>"

section \<open>Filling an array in a loop\<close>

text \<open>
  What a loop of typed-array writes does to one position \<open>p\<close>: it keeps the length, and
  the position holds \<open>v\<close> afterwards if the loop writes it (\<open>w\<close>) and is left alone
  otherwise.
\<close>

definition writes_at :: "nat \<Rightarrow> ('a list \<Rightarrow> 'a list) \<Rightarrow> bool \<Rightarrow> 'a \<Rightarrow> bool" where
  "writes_at p h w v =
     (\<forall>xs. length (h xs) = length xs \<and> (p < length xs \<longrightarrow> h xs ! p = (if w then v else xs ! p)))"

lemma writes_at_ta_set: "writes_at p (\<lambda>xs. ta_set xs i v) (i = int p) v"
  by (auto simp: writes_at_def ta_set_def)

lemma writes_at_fold:
  assumes "\<And>c. c \<in> set cs \<Longrightarrow> writes_at p (f c) (W c) v"
  shows "writes_at p (fold f cs) (\<exists>c\<in>set cs. W c) v"
  using assms
proof (induction cs)
  case Nil
  then show ?case by (simp add: writes_at_def)
next
  case (Cons c cs)
  have hd: "writes_at p (f c) (W c) v" using Cons.prems by simp
  have tl: "writes_at p (fold f cs) (\<exists>c\<in>set cs. W c) v"
    using Cons.IH Cons.prems by simp
  show ?case
    unfolding writes_at_def
  proof (intro allI conjI impI)
    fix xs
    show "length (fold f (c # cs) xs) = length xs"
      using hd tl by (simp add: writes_at_def)
    assume "p < length xs"
    then show "fold f (c # cs) xs ! p = (if \<exists>c\<in>set (c # cs). W c then v else xs ! p)"
      using hd tl by (simp add: writes_at_def)
  qed
qed

lemma writes_at_never: "writes_at p h w v \<Longrightarrow> \<not> w \<Longrightarrow> writes_at p h False v'"
  by (simp add: writes_at_def)

lemma writes_at_length: "writes_at p h w v \<Longrightarrow> length (h xs) = length xs"
  by (simp add: writes_at_def)

lemma writes_at_nth: "writes_at p h w v \<Longrightarrow> p < length xs \<Longrightarrow> w \<Longrightarrow> h xs ! p = v"
  by (simp add: writes_at_def)

lemma sorted_nth_le: "sorted (xs::int list) \<Longrightarrow> i \<le> j \<Longrightarrow> j < length xs \<Longrightarrow> xs ! i \<le> xs ! j"
  by (simp add: sorted_iff_nth_mono)

lemma writes_at_ta_set_if:
  "(i = int p \<Longrightarrow> v = v') \<Longrightarrow> writes_at p (\<lambda>xs. ta_set xs i v) (i = int p) v'"
  by (auto simp: writes_at_def ta_set_def)

lemma fill_sorted_ranges:
  fixes offs :: "int list"
  assumes srt: "sorted offs" and g: "g + 1 < length offs"
    and c: "offs ! g \<le> c" "c < offs ! (g + 1)"
    and item: "\<And>a. a + 1 < length offs \<Longrightarrow>
                 writes_at p (item a) (offs ! a \<le> c \<and> c < offs ! (a + 1)) (val a)"
  shows "writes_at p (fold item [0..<length offs - 1]) True (val g)"
proof -
  have each: "writes_at p (item a) (a = g) (val g)" if a: "a \<in> set [0..<length offs - 1]" for a
  proof (cases "a = g")
    case True
    then show ?thesis using item [of g] g c by simp
  next
    case False
    have al: "a + 1 < length offs" using a by auto
    have "\<not> (offs ! a \<le> c \<and> c < offs ! (a + 1))"
    proof (cases "a < g")
      case True
      then have "offs ! (a + 1) \<le> offs ! g"
        using srt g sorted_nth_le [of offs "a + 1" g] by simp
      then show ?thesis using c by simp
    next
      case False
      with \<open>a \<noteq> g\<close> have "g + 1 \<le> a" by simp
      then have "offs ! (g + 1) \<le> offs ! a"
        using srt al sorted_nth_le [of offs "g + 1" a] by simp
      then show ?thesis using c by simp
    qed
    then have "writes_at p (item a) False (val g)"
      by (rule writes_at_never [OF item [OF al]])
    then show ?thesis using False by simp
  qed
  have "writes_at p (fold item [0..<length offs - 1])
          (\<exists>a\<in>set [0..<length offs - 1]. a = g) (val g)"
    by (rule writes_at_fold) (rule each)
  moreover have "\<exists>a\<in>set [0..<length offs - 1]. a = g" using g by simp
  ultimately show ?thesis by simp
qed

section \<open>invertOffsets\<close>

lemma invert_fill_item:
  "writes_at p (fold (\<lambda>offset inverted. ta_set inverted offset v) [lo..hi - 1]) (lo \<le> int p \<and> int p < hi) v"
proof -
  have "writes_at p (fold (\<lambda>offset inverted. ta_set inverted offset v) [lo..hi - 1])
          (\<exists>c\<in>set [lo..hi - 1]. c = int p) v"
    by (rule writes_at_fold) (rule writes_at_ta_set)
  moreover have "(\<exists>c\<in>set [lo..hi - 1]. c = int p) = (lo \<le> int p \<and> int p < hi)" by auto
  ultimately show ?thesis by simp
qed

lemma invert_fill_all:
  assumes srt: "sorted offs" and g: "g + 1 < length offs"
    and p: "offs ! g \<le> int p" "int p < offs ! (g + 1)"
  shows "writes_at p
           (fold (\<lambda>arrayIdx inverted.
                    fold (\<lambda>offset inverted. ta_set inverted offset (val arrayIdx))
                      [offs ! arrayIdx..offs ! (arrayIdx + 1) - 1] inverted)
              [0..<length offs - 1])
           True (val g)"
proof -
  let ?item = "\<lambda>arrayIdx. fold (\<lambda>offset inverted. ta_set inverted offset (val arrayIdx))
                      [offs ! arrayIdx..offs ! (arrayIdx + 1) - 1]"
  have "writes_at p (fold ?item [0..<length offs - 1]) True (val g)"
    using srt g p
  proof (rule fill_sorted_ranges)
    fix a
    show "writes_at p (?item a) (offs ! a \<le> int p \<and> int p < offs ! (a + 1)) (val a)"
      by (rule invert_fill_item)
  qed
  then show ?thesis by simp
qed

lemma length_fill: "length (fold (\<lambda>offset inverted. ta_set inverted offset v) cs xs) = length xs"
  by (induction cs arbitrary: xs) (simp_all add: ta_set_def)

lemma invert_loop_length:
  "length (fold (\<lambda>arrayIdx inverted.
                    fold (\<lambda>offset inverted. ta_set inverted offset (val arrayIdx))
                      [offs ! arrayIdx..offs ! (arrayIdx + 1) - 1] inverted) gs xs) = length xs"
  by (induction gs arbitrary: xs) (simp_all add: length_fill)

lemma owner_exists:
  "xs \<noteq> [] \<Longrightarrow> hd xs \<le> (p::int) \<Longrightarrow> p < last xs \<Longrightarrow>
     \<exists>g. g + 1 < length xs \<and> xs ! g \<le> p \<and> p < xs ! (g + 1)"
proof (induction xs)
  case Nil
  then show ?case by simp
next
  case (Cons x ys)
  have ys: "ys \<noteq> []" using Cons.prems by auto
  show ?case
  proof (cases "hd ys \<le> p")
    case True
    then obtain g where "g + 1 < length ys" "ys ! g \<le> p" "p < ys ! (g + 1)"
      using Cons.IH ys Cons.prems by auto
    then have "Suc g + 1 < length (x # ys) \<and> (x # ys) ! Suc g \<le> p \<and> p < (x # ys) ! (Suc g + 1)"
      by simp
    then show ?thesis by blast
  next
    case False
    then have "0 + 1 < length (x # ys) \<and> (x # ys) ! 0 \<le> p \<and> p < (x # ys) ! (0 + 1)"
      using ys Cons.prems by (simp add: hd_conv_nth)
    then show ?thesis by blast
  qed
qed

lemma wellformed_last: "wellformed offs \<Longrightarrow> 0 \<le> last offs"
proof -
  assume w: "wellformed offs"
  then have "offs ! 0 \<le> offs ! (length offs - 1)"
    by (intro sorted_nth_le) (simp_all add: wellformed_def)
  then show ?thesis using w by (simp add: wellformed_def last_conv_nth)
qed

lemma js_get_last: "xs \<noteq> [] \<Longrightarrow> js_get xs (int (length xs) - 1) = Some (last xs)"
  by (simp add: js_get_def last_conv_nth nat_diff_distrib' of_nat_diff) 

lemma ToUint_index:
  "g + 1 < n \<Longrightarrow> n - 1 \<le> 2 ^ 32 \<Longrightarrow> ToUint (arrayConstructor n) (int g) = int g"
  by (auto simp: ToUint_def arrayConstructor_def)

lemma invertOffsets_Inr:
  assumes "offs \<noteq> []" "0 \<le> last offs"
  shows "invertOffsets offs =
     Inr \<lparr>ctor = arrayConstructor (length offs),
          elems = fold (\<lambda>arrayIdx inverted.
                       fold (\<lambda>offset inverted.
                            ta_set inverted offset
                              (ToUint (arrayConstructor (length offs)) (int arrayIdx)))
                            [offs ! arrayIdx..offs ! (arrayIdx + 1) - 1] inverted)
                      [0..<length offs - 1] (replicate (nat (last offs)) 0)\<rparr>"
  using assms by (simp add: invertOffsets_def js_get_last new_elems_def Let_def)

text \<open>
  C4. For a well-formed offsets array (non-decreasing, first element 0; an
  \<^verbatim>\<open>Int32Array\<close> of at most \<open>2 ^ 32\<close> source items, so that every source index fits
  the widest output type), \<^verbatim>\<open>invertOffsets\<close> returns an array of length \<open>last offs\<close> in which
  every position \<open>p\<close> of \<open>[offs[g], offs[g+1])\<close> holds \<open>g\<close>; equivalently every
  output position \<open>p\<close> satisfies \<open>offs[out[p]] \<le> p < offs[out[p] + 1]\<close>.
\<close>

theorem invertOffsets_inverse:
  assumes w: "wellformed offs" and fit: "indices_fit offs"
  shows "\<exists>out. invertOffsets offs = Inr out \<and>
           length (elems out) = nat (last offs) \<and>
           (\<forall>g p. g + 1 < length offs \<and> offs ! g \<le> int p \<and> int p < offs ! (g + 1)
                    \<longrightarrow> elems out ! p = int g) \<and>
           (\<forall>p < length (elems out).
               offs ! nat (elems out ! p) \<le> int p \<and> int p < offs ! (nat (elems out ! p) + 1))"
proof -
  let ?val = "\<lambda>a. ToUint (arrayConstructor (length offs)) (int a)"
  let ?loop = "fold (\<lambda>arrayIdx inverted.
                       fold (\<lambda>offset inverted. ta_set inverted offset (?val arrayIdx))
                            [offs ! arrayIdx..offs ! (arrayIdx + 1) - 1] inverted)
                      [0..<length offs - 1]"
  let ?init = "replicate (nat (last offs)) (0::int)"
  let ?out = "\<lparr>ctor = arrayConstructor (length offs), elems = ?loop ?init\<rparr>"
  have ne: "offs \<noteq> []" and srt: "sorted offs" and z: "offs ! 0 = 0"
    using w by (simp_all add: wellformed_def)
  have last0: "0 \<le> last offs" using w by (rule wellformed_last)
  have run: "invertOffsets offs = Inr ?out"
    using ne last0 by (rule invertOffsets_Inr)
  have one: "?loop ?init ! p = int g \<and> p < length (?loop ?init) \<and> length (?loop ?init) = nat (last offs)"
    if g: "g + 1 < length offs" and p: "offs ! g \<le> int p" "int p < offs ! (g + 1)" for g p
  proof -
    have wr: "writes_at p ?loop True (?val g)"
      using srt g p by (rule invert_fill_all)
    have "offs ! (g + 1) \<le> offs ! (length offs - 1)"
      using srt g by (simp add: sorted_iff_nth_mono)
    then have "int p < last offs" using p ne by (simp add: last_conv_nth)
    then have pl: "p < length ?init" by simp
    have "?loop ?init ! p = ?val g" using wr pl by (rule writes_at_nth) simp
    moreover have "?val g = int g" using g fit by (simp add: ToUint_index indices_fit_def)
    moreover have "length (?loop ?init) = length ?init" using wr by (rule writes_at_length)
    ultimately show ?thesis using pl by simp
  qed
  have len: "length (?loop ?init) = nat (last offs)"
  proof -
    have "length (?loop ?init) = length ?init" by (rule invert_loop_length)
    then show ?thesis by simp
  qed
  have inv_range: "offs ! nat (?loop ?init ! p) \<le> int p \<and> int p < offs ! (nat (?loop ?init ! p) + 1)"
    if "p < length (?loop ?init)" for p
  proof -
    have "int p < last offs" using that len by simp
    moreover have "hd offs \<le> int p" using z ne by (simp add: hd_conv_nth)
    ultimately obtain g where g: "g + 1 < length offs" "offs ! g \<le> int p" "int p < offs ! (g + 1)"
      using owner_exists [OF ne] by blast
    then have "?loop ?init ! p = int g" using one by blast
    then show ?thesis using g by simp
  qed
  show ?thesis
    using run len one inv_range by (intro exI [of _ ?out]) simp
qed

theorem invertOffsets_inverse_witness:
  "wellformed [0, 2, 5] \<and> indices_fit [0, 2, 5] \<and>
   (\<exists>out. invertOffsets [0, 2, 5] = Inr out \<and> length (elems out) = 5 \<and>
      elems out ! 1 = 0 \<and> elems out ! 4 = 1)"
proof -
  have w: "wellformed [0, 2, 5]" by (simp add: wellformed_def)
  have f: "indices_fit [0, 2, 5]" by (simp add: indices_fit_def)
  obtain out where run: "invertOffsets [0, 2, 5] = Inr out"
    and len: "length (elems out) = nat (last [0, 2, 5])"
    and fill: "\<forall>g p. g + 1 < length [0, 2, 5 :: int] \<and> [0, 2, 5] ! g \<le> int p
                     \<and> int p < [0, 2, 5] ! (g + 1) \<longrightarrow> elems out ! p = int g"
    using invertOffsets_inverse [OF w f] by blast
  have "elems out ! 1 = 0" using fill [rule_format, of 0 1] by simp
  moreover have "elems out ! 4 = 1" using fill [rule_format, of 1 4] by simp
  ultimately show ?thesis using w f run len by simp
qed

text \<open>
  C3 as stated fails when \<^verbatim>\<open>offsets.length\<close> is exactly \<open>2 ^ 8\<close>: the 255 source items
  fit 8 bits, and the code, which compares the length itself with \<open>2 ^ 8\<close>, takes a
  \<^verbatim>\<open>Uint16Array\<close>.
\<close>

theorem invertOffsets_width_counterexample:
  "invertOffsets (replicate 256 0) = Inr \<lparr>ctor = Uint16Array, elems = []\<rparr> \<and>
   ctor_bits Uint16Array = 16 \<and>
   spec_smallest_width (length (replicate 256 (0::int)) - 1) = 8"
proof -
  let ?offs = "replicate 256 (0::int)"
  have "invertOffsets ?offs = Inr \<lparr>ctor = arrayConstructor (length ?offs),
          elems = fold (\<lambda>arrayIdx inverted.
                       fold (\<lambda>offset inverted.
                            ta_set inverted offset
                              (ToUint (arrayConstructor (length ?offs)) (int arrayIdx)))
                            [?offs ! arrayIdx..?offs ! (arrayIdx + 1) - 1] inverted)
                      [0..<length ?offs - 1] (replicate (nat (last ?offs)) 0)\<rparr>"
    by (rule invertOffsets_Inr) simp_all
  moreover have "length (fold (\<lambda>arrayIdx inverted.
                       fold (\<lambda>offset inverted.
                            ta_set inverted offset
                              (ToUint (arrayConstructor (length ?offs)) (int arrayIdx)))
                            [?offs ! arrayIdx..?offs ! (arrayIdx + 1) - 1] inverted)
                      [0..<length ?offs - 1] (replicate (nat (last ?offs)) 0))
                 = length (replicate (nat (last ?offs)) (0::int))"
    by (rule invert_loop_length)
  moreover have "arrayConstructor (length ?offs) = Uint16Array"
    by (simp add: arrayConstructor_def)
  ultimately have "invertOffsets ?offs = Inr \<lparr>ctor = Uint16Array, elems = []\<rparr>"
    by simp
  then show ?thesis
    by (simp add: spec_smallest_width_def can_represent_def)
qed

text \<open>
  C3, amended. For a non-empty offsets array with a non-negative last element,
  \<^verbatim>\<open>invertOffsets\<close> returns an array whose constructor is \<^verbatim>\<open>Uint8Array\<close> when
  \<^verbatim>\<open>offsets.length\<close> is below \<open>2 ^ 8\<close>, \<^verbatim>\<open>Uint16Array\<close> when it is below \<open>2 ^ 16\<close>
  and \<^verbatim>\<open>Uint32Array\<close> otherwise. Up to \<open>2 ^ 32\<close> elements that width can represent
  \<open>length offs - 1\<close>, and it is the smallest of 8, 16 and 32 bits that can unless the
  length is exactly \<open>2 ^ 8\<close> or \<open>2 ^ 16\<close>. \<^verbatim>\<open>invertOffsets([0, 2, 5])\<close> is the
  \<^verbatim>\<open>Uint8Array\<close> \<open>[0, 0, 1, 1, 1]\<close>.
\<close>

theorem invertOffsets_element_type:
  "(offs \<noteq> [] \<and> 0 \<le> last offs \<longrightarrow>
     (\<exists>out. invertOffsets offs = Inr out \<and>
        ctor out = (if length offs < 2 ^ 8 then Uint8Array
                    else if length offs < 2 ^ 16 then Uint16Array else Uint32Array) \<and>
        (length offs \<le> 2 ^ 32 \<longrightarrow> can_represent (ctor_bits (ctor out)) (length offs - 1)) \<and>
        (length offs \<noteq> 2 ^ 8 \<and> length offs \<noteq> 2 ^ 16 \<longrightarrow>
           ctor_bits (ctor out) = spec_smallest_width (length offs - 1)))) \<and>
   invertOffsets [0, 2, 5] = Inr \<lparr>ctor = Uint8Array, elems = [0, 0, 1, 1, 1]\<rparr>"
proof (intro conjI impI)
  assume a: "offs \<noteq> [] \<and> 0 \<le> last offs"
  let ?out = "\<lparr>ctor = arrayConstructor (length offs),
          elems = fold (\<lambda>arrayIdx inverted.
                       fold (\<lambda>offset inverted.
                            ta_set inverted offset
                              (ToUint (arrayConstructor (length offs)) (int arrayIdx)))
                            [offs ! arrayIdx..offs ! (arrayIdx + 1) - 1] inverted)
                      [0..<length offs - 1] (replicate (nat (last offs)) 0)\<rparr>"
  have run: "invertOffsets offs = Inr ?out"
    using a by (intro invertOffsets_Inr) simp_all
  have c: "ctor ?out = (if length offs < 2 ^ 8 then Uint8Array
                    else if length offs < 2 ^ 16 then Uint16Array else Uint32Array)"
    by (simp add: arrayConstructor_def)
  have ne: "0 < length offs" using a by simp
  have r: "length offs \<le> 2 ^ 32 \<longrightarrow> can_represent (ctor_bits (ctor ?out)) (length offs - 1)"
    using ne by (auto simp: arrayConstructor_def can_represent_def)
  have m: "length offs \<noteq> 2 ^ 8 \<and> length offs \<noteq> 2 ^ 16 \<longrightarrow>
           ctor_bits (ctor ?out) = spec_smallest_width (length offs - 1)"
    using ne by (auto simp: arrayConstructor_def can_represent_def spec_smallest_width_def)
  show "\<exists>out. invertOffsets offs = Inr out \<and>
        ctor out = (if length offs < 2 ^ 8 then Uint8Array
                    else if length offs < 2 ^ 16 then Uint16Array else Uint32Array) \<and>
        (length offs \<le> 2 ^ 32 \<longrightarrow> can_represent (ctor_bits (ctor out)) (length offs - 1)) \<and>
        (length offs \<noteq> 2 ^ 8 \<and> length offs \<noteq> 2 ^ 16 \<longrightarrow>
           ctor_bits (ctor out) = spec_smallest_width (length offs - 1))"
    using run c r m by (intro exI [of _ ?out] conjI)
next
  show "invertOffsets [0, 2, 5] = Inr \<lparr>ctor = Uint8Array, elems = [0, 0, 1, 1, 1]\<rparr>"
    by code_simp
qed

theorem invertOffsets_element_type_witness:
  "[0, 1, 1, 4] \<noteq> [] \<and> (0::int) \<le> last [0, 1, 1, 4] \<and>
   (\<exists>out. invertOffsets [0, 1, 1, 4] = Inr out \<and> ctor out = Uint8Array \<and>
      can_represent (ctor_bits (ctor out)) 3 \<and> ctor_bits (ctor out) = spec_smallest_width 3)"
  using invertOffsets_element_type [of "[0, 1, 1, 4]"]
  by (auto simp: can_represent_def spec_smallest_width_def)

section \<open>expandArrayToCoords\<close>

lemma channel_unique:
  fixes c c0 :: int
  assumes "c * int s + int i = c0 * int s + int i0" "i < s" "i0 < s"
  shows "c = c0 \<and> i = i0"
proof -
  have a: "(c * int s + int i) div int s = c" using assms(2) by simp
  have b: "(c0 * int s + int i0) div int s = c0" using assms(3) by simp
  have "(c * int s + int i) div int s = (c0 * int s + int i0) div int s"
    using assms(1) by (rule arg_cong)
  then have c: "c = c0" unfolding a b .
  have "int i = int i0" using assms(1) unfolding c by simp
  then show ?thesis using c by simp
qed

lemma expand_channels:
  assumes i0: "i0 < s" and q: "int q = c0 * int s + int i0"
  shows "writes_at q
           (fold (\<lambda>i out. ta_set out (c * int s + int i) (val i)) [0..<s])
           (c = c0) (val i0)"
proof -
  have each: "writes_at q (\<lambda>out. ta_set out (c * int s + int i) (val i))
                (c * int s + int i = int q) (val i0)" if "i \<in> set [0..<s]" for i
  proof (rule writes_at_ta_set_if)
    assume "c * int s + int i = int q"
    then have "i = i0" using channel_unique [of c s i c0 i0] q i0 that by simp
    then show "val i = val i0" by simp
  qed
  have "writes_at q (fold (\<lambda>i out. ta_set out (c * int s + int i) (val i)) [0..<s])
          (\<exists>i\<in>set [0..<s]. c * int s + int i = int q) (val i0)"
    by (rule writes_at_fold) (rule each)
  moreover have "(\<exists>i\<in>set [0..<s]. c * int s + int i = int q) = (c = c0)"
  proof
    assume "\<exists>i\<in>set [0..<s]. c * int s + int i = int q"
    then obtain i where "i < s" "c * int s + int i = c0 * int s + int i0" using q by auto
    then show "c = c0" using channel_unique i0 by blast
  next
    assume "c = c0"
    then show "\<exists>i\<in>set [0..<s]. c * int s + int i = int q" using q i0 by auto
  qed
  ultimately show ?thesis by simp
qed

lemma expandGeometry_writes:
  assumes i0: "i0 < s" and q: "int q = c0 * int s + int i0"
  shows "writes_at q (expandGeometry u input s offs a)
           (offs ! a \<le> c0 \<and> c0 < offs ! (a + 1))
           (ToElement u (js_get input (int a * int s + int i0)))"
proof -
  let ?val = "\<lambda>i. ToElement u (js_get input (int a * int s + int i))"
  let ?chan = "\<lambda>c. fold (\<lambda>i out. ta_set out (c * int s + int i) (?val i)) [0..<s]"
  have "writes_at q (fold ?chan [offs ! a..offs ! (a + 1) - 1])
          (\<exists>c\<in>set [offs ! a..offs ! (a + 1) - 1]. c = c0) (?val i0)"
    by (rule writes_at_fold) (rule expand_channels [OF i0 q])
  moreover have "(\<exists>c\<in>set [offs ! a..offs ! (a + 1) - 1]. c = c0)
                  = (offs ! a \<le> c0 \<and> c0 < offs ! (a + 1))" by auto
  moreover have "expandGeometry u input s offs a = fold ?chan [offs ! a..offs ! (a + 1) - 1]"
    by (rule ext) (simp add: expandGeometry_def Let_def)
  ultimately show ?thesis by simp
qed

lemma length_expandGeometry: "length (expandGeometry u input s offs a out) = length out"
proof -
  have ch: "length (fold (\<lambda>i out. ta_set out (f i) (w i)) is xs) = length xs" for f w "is" and xs :: "'a list"
    by (induction "is" arbitrary: xs) (simp_all add: ta_set_def)
  have "length (fold (\<lambda>c out. fold (\<lambda>i out. ta_set out (f c i) (w i)) is out) cs xs) = length xs"
    for f w "is" cs and xs :: "'a list"
    by (induction cs arbitrary: xs) (simp_all add: ch)
  then show ?thesis by (simp add: expandGeometry_def Let_def)
qed

lemma length_fold_expandGeometry:
  "length (fold (expandGeometry u input s offs) gs out) = length out"
  by (induction gs arbitrary: out) (simp_all add: length_expandGeometry)

lemma expandGeometry_empty:
  "offs ! g = offs ! (g + 1) \<Longrightarrow> expandGeometry u input s offs g out = out"
  by (simp add: expandGeometry_def Let_def)

lemma expandArrayToCoords_Inr:
  assumes "offs \<noteq> []" "0 \<le> last offs"
  shows "expandArrayToCoords u input s offs =
     Inr \<lparr>ctor = ctor input,
          elems = fold (expandGeometry u (elems input) s offs) [0..<length offs - 1]
                    (replicate (s * nat (last offs)) 0)\<rparr>"
  using assms
  by (simp add: expandArrayToCoords_def js_get_last new_elems_def Let_def nat_mult_distrib
        mult.commute mult_less_0_iff)

text \<open>
  C2. For a typed array \<open>input\<close>, a channel count \<open>s\<close> and a well-formed offsets array
  with \<open>length input = s * (length offs - 1)\<close>, \<^verbatim>\<open>expandArrayToCoords\<close> returns an
  array of the constructor of \<open>input\<close> and of length \<open>s * last offs\<close> in which, for
  every geometry \<open>g\<close>, every coordinate \<open>c\<close> of \<open>[offs[g], offs[g+1])\<close> and every
  channel \<open>i < s\<close>, position \<open>c * s + i\<close> holds \<open>input[g * s + i]\<close>. The loop body
  of an empty geometry writes nothing: it returns the output array it was given.
\<close>

theorem expandArrayToCoords_broadcast:
  assumes w: "wellformed offs"
    and pre: "length (elems input) = s * (length offs - 1)"
  shows "\<exists>out. expandArrayToCoords u input s offs = Inr out \<and>
           length (elems out) = s * nat (last offs) \<and>
           ctor out = ctor input \<and>
           (\<forall>g c i. g + 1 < length offs \<and> offs ! g \<le> int c \<and> int c < offs ! (g + 1) \<and> i < s
                \<longrightarrow> elems out ! (c * s + i) = elems input ! (g * s + i)) \<and>
           (\<forall>g acc. g + 1 < length offs \<and> offs ! g = offs ! (g + 1)
                \<longrightarrow> expandGeometry u (elems input) s offs g acc = acc)"
proof -
  let ?loop = "fold (expandGeometry u (elems input) s offs) [0..<length offs - 1]"
  let ?init = "replicate (s * nat (last offs)) (0::'a)"
  let ?out = "\<lparr>ctor = ctor input, elems = ?loop ?init\<rparr>"
  have ne: "offs \<noteq> []" and srt: "sorted offs"
    using w by (simp_all add: wellformed_def)
  have last0: "0 \<le> last offs" using w by (rule wellformed_last)
  have run: "expandArrayToCoords u input s offs = Inr ?out"
    using ne last0 by (rule expandArrayToCoords_Inr)
  have len: "length (?loop ?init) = s * nat (last offs)"
    by (simp add: length_fold_expandGeometry)
  have one: "?loop ?init ! (c * s + i) = elems input ! (g * s + i)"
    if g: "g + 1 < length offs" and c: "offs ! g \<le> int c" "int c < offs ! (g + 1)" and i: "i < s"
    for g c i
  proof -
    have q: "int (c * s + i) = int c * int s + int i" by simp
    have wr: "writes_at (c * s + i) ?loop True
                (ToElement u (js_get (elems input) (int g * int s + int i)))"
      using srt g c
    proof (rule fill_sorted_ranges)
      fix a
      show "writes_at (c * s + i) (expandGeometry u (elems input) s offs a)
              (offs ! a \<le> int c \<and> int c < offs ! (a + 1))
              (ToElement u (js_get (elems input) (int a * int s + int i)))"
        using i q by (rule expandGeometry_writes)
    qed
    have "offs ! (g + 1) \<le> offs ! (length offs - 1)"
      using srt g sorted_nth_le [of offs "g + 1" "length offs - 1"] by simp
    then have "int c < last offs" using c ne by (simp add: last_conv_nth)
    then have "c + 1 \<le> nat (last offs)" by simp
    then have "(c + 1) * s \<le> nat (last offs) * s" by (rule mult_le_mono1)
    then have pl: "c * s + i < length ?init" using i by (simp add: mult.commute)
    have "g * s + i < (g + 1) * s" using i by simp
    also have "\<dots> \<le> (length offs - 1) * s" using g by (intro mult_le_mono1) simp
    finally have "g * s + i < length (elems input)" using pre by (simp add: mult.commute)
    then have "js_get (elems input) (int g * int s + int i) = Some (elems input ! (g * s + i))"
      by (simp add: js_get_def nat_add_distrib nat_mult_distrib flip: of_nat_mult of_nat_add)
    moreover have "?loop ?init ! (c * s + i) = ToElement u (js_get (elems input) (int g * int s + int i))"
      using wr pl by (rule writes_at_nth) simp
    ultimately show ?thesis by (simp add: ToElement_def)
  qed
  have none: "expandGeometry u (elems input) s offs g acc = acc"
    if "offs ! g = offs ! (g + 1)" for g acc
    using that by (rule expandGeometry_empty)
  show ?thesis
    using run len one none by (intro exI [of _ ?out]) simp
qed

theorem expandArrayToCoords_broadcast_witness:
  "wellformed [0, 2, 5] \<and>
   length (elems \<lparr>ctor = Uint8Array, elems = [10, 20 :: int]\<rparr>) = 1 * (length [0, 2, 5 :: int] - 1) \<and>
   (\<exists>out. expandArrayToCoords 0 \<lparr>ctor = Uint8Array, elems = [10, 20 :: int]\<rparr> 1 [0, 2, 5] = Inr out \<and>
      length (elems out) = 5 \<and> ctor out = Uint8Array \<and>
      elems out ! 1 = 10 \<and> elems out ! 4 = 20)"
proof -
  let ?input = "\<lparr>ctor = Uint8Array, elems = [10, 20 :: int]\<rparr>"
  have w: "wellformed [0, 2, 5]" by (simp add: wellformed_def)
  have pre: "length (elems ?input) = 1 * (length [0, 2, 5 :: int] - 1)" by simp
  obtain out where run: "expandArrayToCoords 0 ?input 1 [0, 2, 5] = Inr out"
    and len: "length (elems out) = 1 * nat (last [0, 2, 5])"
    and c: "ctor out = ctor ?input"
    and fill: "\<forall>g c i. g + 1 < length [0, 2, 5 :: int] \<and> [0, 2, 5] ! g \<le> int c
                   \<and> int c < [0, 2, 5] ! (g + 1) \<and> i < 1
                 \<longrightarrow> elems out ! (c * 1 + i) = elems ?input ! (g * 1 + i)"
    using expandArrayToCoords_broadcast [OF w pre, of 0] by blast
  have "elems out ! 1 = 10" using fill [rule_format, of 0 1 0] by simp
  moreover have "elems out ! 4 = 20" using fill [rule_format, of 1 4 0] by simp
  ultimately show ?thesis using w run len c by simp
qed

section \<open>The offset resolvers\<close>

lemma fold_ta_set_prefix:
  "k \<le> n \<Longrightarrow>
   fold (\<lambda>i r. ta_set r (int i) (h i)) [0..<k] (replicate n z) = map h [0..<k] @ replicate (n - k) z"
proof (induction k)
  case 0
  then show ?case by simp
next
  case (Suc k)
  then have "n - k = Suc (n - Suc k)" by simp
  then have r: "replicate (n - k) z = z # replicate (n - Suc k) z" by (simp only: replicate_Suc)
  show ?case using Suc by (simp add: ta_set_def r list_update_append)
qed

lemma fold_ta_set_map:
  "fold (\<lambda>i r. ta_set r (int i) (f (xs ! i))) [0..<length xs] (replicate (length xs) z)
     = map f xs"
proof -
  have "fold (\<lambda>i r. ta_set r (int i) (f (xs ! i))) [0..<length xs] (replicate (length xs) z)
          = map (\<lambda>i. f (xs ! i)) [0..<length xs]"
    using fold_ta_set_prefix [of "length xs" "length xs" "\<lambda>i. f (xs ! i)" z] by simp
  also have "\<dots> = map f xs" by (rule nth_equalityI) simp_all
  finally show ?thesis .
qed

lemma getPolygonResolvedOffsets_map:
  "getPolygonChild data = Some ringData \<Longrightarrow>
   getPolygonResolvedOffsets data =
     Inr (map (\<lambda>x. ToInt32 (js_get (valueOffsets ringData) x)) (valueOffsets data))"
  using fold_ta_set_map [of "\<lambda>x. ToInt32 (js_get (valueOffsets ringData) x)" "valueOffsets data" 0]
  by (simp add: getPolygonResolvedOffsets_def Let_def)

lemma getMultiLineStringResolvedOffsets_map:
  "getMultiLineStringChild data = Some lineStringData \<Longrightarrow>
   getMultiLineStringResolvedOffsets data =
     Inr (map (\<lambda>x. ToInt32 (js_get (valueOffsets lineStringData) x)) (valueOffsets data))"
  using fold_ta_set_map [of "\<lambda>x. ToInt32 (js_get (valueOffsets lineStringData) x)"
          "valueOffsets data" 0]
  by (simp add: getMultiLineStringResolvedOffsets_def Let_def)

lemma getMultiPolygonResolvedOffsets_map:
  "getMultiPolygonChild data = Some polygonData \<Longrightarrow> getPolygonChild polygonData = Some ringData \<Longrightarrow>
   getMultiPolygonResolvedOffsets data =
     Inr (map (\<lambda>x. ToInt32 (case js_get (valueOffsets polygonData) x of None \<Rightarrow> None
                              | Some j \<Rightarrow> js_get (valueOffsets ringData) j)) (valueOffsets data))"
  using fold_ta_set_map [of "\<lambda>x. ToInt32 (case js_get (valueOffsets polygonData) x of None \<Rightarrow> None
                              | Some j \<Rightarrow> js_get (valueOffsets ringData) j)" "valueOffsets data" 0]
  by (simp add: getMultiPolygonResolvedOffsets_def Let_def)

lemma indexes_into_get:
  "indexes_into outer inner \<Longrightarrow> i < length outer \<Longrightarrow>
     js_get inner (outer ! i) = Some (inner ! nat (outer ! i))"
  by (simp add: indexes_into_def js_get_def)

lemma indexes_into_nth:
  "indexes_into outer inner \<Longrightarrow> i < length outer \<Longrightarrow>
     0 \<le> outer ! i \<and> nat (outer ! i) < length inner"
proof -
  assume a: "indexes_into outer inner" and i: "i < length outer"
  have "outer ! i \<in> set outer" using i by simp
  then have "0 \<le> outer ! i \<and> outer ! i < int (length inner)"
    using a by (simp add: indexes_into_def)
  then show ?thesis by (simp add: nat_less_iff)
qed

text \<open>
  C5. For a chain of offsets arrays (each element of an outer array is an index of the
  next inner one, as the start of an item in the child domain is) the resolver returns an array \<open>R\<close> as long as the outermost array with
  \<open>R[i] = O\<^sub>2[O\<^sub>1[i]]\<close> for \<^verbatim>\<open>getPolygonResolvedOffsets\<close> and
  \<^verbatim>\<open>getMultiLineStringResolvedOffsets\<close>, and \<open>R[i] = O\<^sub>3[O\<^sub>2[O\<^sub>1[i]]]\<close> for
  \<^verbatim>\<open>getMultiPolygonResolvedOffsets\<close>, at every index \<open>i\<close> of the outermost array.
\<close>

theorem resolved_offsets_chain:
  "(getPolygonChild data = Some ringData \<and>
    indexes_into (valueOffsets data) (valueOffsets ringData) \<longrightarrow>
      (\<exists>R. getPolygonResolvedOffsets data = Inr R \<and> length R = length (valueOffsets data) \<and>
         (\<forall>i<length (valueOffsets data).
            R ! i = valueOffsets ringData ! nat (valueOffsets data ! i)))) \<and>
   (getMultiLineStringChild data = Some lineStringData \<and>
    indexes_into (valueOffsets data) (valueOffsets lineStringData) \<longrightarrow>
      (\<exists>R. getMultiLineStringResolvedOffsets data = Inr R \<and> length R = length (valueOffsets data) \<and>
         (\<forall>i<length (valueOffsets data).
            R ! i = valueOffsets lineStringData ! nat (valueOffsets data ! i)))) \<and>
   (getMultiPolygonChild data = Some polygonData \<and> getPolygonChild polygonData = Some ringData' \<and>
    indexes_into (valueOffsets data) (valueOffsets polygonData) \<and>
    indexes_into (valueOffsets polygonData) (valueOffsets ringData') \<longrightarrow>
      (\<exists>R. getMultiPolygonResolvedOffsets data = Inr R \<and> length R = length (valueOffsets data) \<and>
         (\<forall>i<length (valueOffsets data).
            R ! i = valueOffsets ringData' !
                      nat (valueOffsets polygonData ! nat (valueOffsets data ! i)))))"
proof (intro conjI impI)
  assume a: "getPolygonChild data = Some ringData \<and>
    indexes_into (valueOffsets data) (valueOffsets ringData)"
  then show "\<exists>R. getPolygonResolvedOffsets data = Inr R \<and> length R = length (valueOffsets data) \<and>
         (\<forall>i<length (valueOffsets data).
            R ! i = valueOffsets ringData ! nat (valueOffsets data ! i))"
    by (simp add: getPolygonResolvedOffsets_map indexes_into_get ToInt32_def)
next
  assume a: "getMultiLineStringChild data = Some lineStringData \<and>
    indexes_into (valueOffsets data) (valueOffsets lineStringData)"
  then show "\<exists>R. getMultiLineStringResolvedOffsets data = Inr R \<and> length R = length (valueOffsets data) \<and>
         (\<forall>i<length (valueOffsets data).
            R ! i = valueOffsets lineStringData ! nat (valueOffsets data ! i))"
    by (simp add: getMultiLineStringResolvedOffsets_map indexes_into_get ToInt32_def)
next
  assume a: "getMultiPolygonChild data = Some polygonData \<and> getPolygonChild polygonData = Some ringData' \<and>
    indexes_into (valueOffsets data) (valueOffsets polygonData) \<and>
    indexes_into (valueOffsets polygonData) (valueOffsets ringData')"
  have "js_get (valueOffsets ringData') (valueOffsets polygonData ! nat (valueOffsets data ! i))
         = Some (valueOffsets ringData' ! nat (valueOffsets polygonData ! nat (valueOffsets data ! i)))"
    if "i < length (valueOffsets data)" for i
    using a that indexes_into_nth [of "valueOffsets data" "valueOffsets polygonData" i]
    by (simp add: indexes_into_get)
  then show "\<exists>R. getMultiPolygonResolvedOffsets data = Inr R \<and> length R = length (valueOffsets data) \<and>
         (\<forall>i<length (valueOffsets data).
            R ! i = valueOffsets ringData' !
                      nat (valueOffsets polygonData ! nat (valueOffsets data ! i)))"
    using a by (simp add: getMultiPolygonResolvedOffsets_map indexes_into_get ToInt32_def)
qed

theorem resolved_offsets_chain_witness:
  "getPolygonChild scenario_multipolygon = Some scenario_polygon \<and>
   getMultiLineStringChild scenario_multipolygon = Some scenario_polygon \<and>
   getMultiPolygonChild scenario_multipolygon = Some scenario_polygon \<and>
   getPolygonChild scenario_polygon = Some scenario_rings \<and>
   indexes_into (valueOffsets scenario_multipolygon) (valueOffsets scenario_polygon) \<and>
   indexes_into (valueOffsets scenario_polygon) (valueOffsets scenario_rings) \<and>
   (\<exists>R. getPolygonResolvedOffsets scenario_multipolygon = Inr R \<and> length R = 2 \<and> R ! 1 = 3) \<and>
   (\<exists>R. getMultiLineStringResolvedOffsets scenario_multipolygon = Inr R \<and> length R = 2 \<and> R ! 1 = 3) \<and>
   (\<exists>R. getMultiPolygonResolvedOffsets scenario_multipolygon = Inr R \<and> length R = 2 \<and> R ! 1 = 7)"
proof -
  have c: "getPolygonChild scenario_multipolygon = Some scenario_polygon"
    "getMultiLineStringChild scenario_multipolygon = Some scenario_polygon"
    "getMultiPolygonChild scenario_multipolygon = Some scenario_polygon"
    "getPolygonChild scenario_polygon = Some scenario_rings"
    by (simp_all add: scenario_multipolygon_def scenario_polygon_def getPolygonChild_def
          getMultiLineStringChild_def getMultiPolygonChild_def js_get_def)
  have v: "valueOffsets scenario_multipolygon = [0, 2]" "valueOffsets scenario_polygon = [0, 1, 3]"
    "valueOffsets scenario_rings = [0, 4, 4, 7]"
    by (simp_all add: scenario_multipolygon_def scenario_polygon_def scenario_rings_def)
  have i: "indexes_into (valueOffsets scenario_multipolygon) (valueOffsets scenario_polygon)"
    "indexes_into (valueOffsets scenario_polygon) (valueOffsets scenario_rings)"
    by (simp_all add: v indexes_into_def)
  note t = resolved_offsets_chain [of scenario_multipolygon scenario_polygon scenario_polygon
             scenario_polygon scenario_rings]
  obtain R1 where r1: "getPolygonResolvedOffsets scenario_multipolygon = Inr R1"
      "length R1 = length (valueOffsets scenario_multipolygon)"
      "\<forall>i<length (valueOffsets scenario_multipolygon).
         R1 ! i = valueOffsets scenario_polygon ! nat (valueOffsets scenario_multipolygon ! i)"
    using t c i by blast
  obtain R2 where r2: "getMultiLineStringResolvedOffsets scenario_multipolygon = Inr R2"
      "length R2 = length (valueOffsets scenario_multipolygon)"
      "\<forall>i<length (valueOffsets scenario_multipolygon).
         R2 ! i = valueOffsets scenario_polygon ! nat (valueOffsets scenario_multipolygon ! i)"
    using t c i by blast
  obtain R3 where r3: "getMultiPolygonResolvedOffsets scenario_multipolygon = Inr R3"
      "length R3 = length (valueOffsets scenario_multipolygon)"
      "\<forall>i<length (valueOffsets scenario_multipolygon).
         R3 ! i = valueOffsets scenario_rings !
                    nat (valueOffsets scenario_polygon ! nat (valueOffsets scenario_multipolygon ! i))"
    using t c i by blast
  have "R1 ! 1 = 3" using r1(3) [rule_format, of 1] by (simp add: v)
  moreover have "R2 ! 1 = 3" using r2(3) [rule_format, of 1] by (simp add: v)
  moreover have "R3 ! 1 = 7" using r3(3) [rule_format, of 1] by (simp add: v)
  ultimately show ?thesis using c i r1(1,2) r2(1,2) r3(1,2) by (simp add: v)
qed

lemma resolve_level:
  "indexes_into outer inner \<Longrightarrow>
     map (\<lambda>x. ToInt32 (js_get inner x)) outer = map (\<lambda>x. inner ! nat x) outer"
  by (simp add: indexes_into_def js_get_def ToInt32_def)

lemma resolve_two_levels:
  "indexes_into outer middle \<Longrightarrow>
     map (\<lambda>x. ToInt32 (case js_get middle x of None \<Rightarrow> None | Some j \<Rightarrow> js_get inner j)) outer
       = map (\<lambda>y. ToInt32 (js_get inner y)) (map (\<lambda>x. middle ! nat x) outer)"
  by (simp add: indexes_into_def js_get_def)

lemma indexes_into_resolved:
  assumes "indexes_into outer middle" "indexes_into middle inner"
  shows "indexes_into (map (\<lambda>x. middle ! nat x) outer) inner"
proof -
  have "middle ! nat x \<in> set middle" if "x \<in> set outer" for x
    using assms(1) that by (simp add: indexes_into_def nat_less_iff)
  then show ?thesis using assms(2) by (auto simp: indexes_into_def)
qed

lemma wellformed_resolved:
  assumes o: "wellformed outer" and n: "wellformed inner" and c: "indexes_into outer inner"
  shows "wellformed (map (\<lambda>x. inner ! nat x) outer)"
proof -
  have so: "sorted outer" and si: "sorted inner" and ne: "outer \<noteq> []"
    and z: "outer ! 0 = 0" "inner ! 0 = 0"
    using o n by (simp_all add: wellformed_def)
  have mono: "inner ! nat (outer ! i) \<le> inner ! nat (outer ! j)"
    if "i \<le> j" "j < length outer" for i j
  proof -
    have "outer ! i \<le> outer ! j" using so that by (rule sorted_nth_le)
    moreover have "0 \<le> outer ! i" using c that indexes_into_nth [of outer inner i] by simp
    moreover have "nat (outer ! j) < length inner"
      using c that indexes_into_nth [of outer inner j] by simp
    ultimately show ?thesis using si sorted_nth_le [of inner "nat (outer ! i)" "nat (outer ! j)"]
      by simp
  qed
  have "sorted (map (\<lambda>x. inner ! nat x) outer)"
    unfolding sorted_iff_nth_mono using mono by simp
  moreover have "map (\<lambda>x. inner ! nat x) outer ! 0 = 0" using ne z by simp
  ultimately show ?thesis using ne by (simp add: wellformed_def)
qed

text \<open>
  C6. For a chain of well-formed offsets arrays (each non-decreasing with first element 0,
  each element of an outer array an index of the next inner one) the array returned by
  \<^verbatim>\<open>getPolygonResolvedOffsets\<close> and by \<^verbatim>\<open>getMultiPolygonResolvedOffsets\<close> is
  well-formed: non-decreasing with first element 0.
\<close>

theorem resolved_offsets_wellformed:
  "(getPolygonChild data = Some ringData \<and>
    wellformed (valueOffsets data) \<and> wellformed (valueOffsets ringData) \<and>
    indexes_into (valueOffsets data) (valueOffsets ringData) \<longrightarrow>
      (\<exists>R. getPolygonResolvedOffsets data = Inr R \<and> wellformed R)) \<and>
   (getMultiPolygonChild data = Some polygonData \<and> getPolygonChild polygonData = Some ringData' \<and>
    wellformed (valueOffsets data) \<and> wellformed (valueOffsets polygonData) \<and>
    wellformed (valueOffsets ringData') \<and>
    indexes_into (valueOffsets data) (valueOffsets polygonData) \<and>
    indexes_into (valueOffsets polygonData) (valueOffsets ringData') \<longrightarrow>
      (\<exists>R. getMultiPolygonResolvedOffsets data = Inr R \<and> wellformed R))"
proof (intro conjI impI)
  assume a: "getPolygonChild data = Some ringData \<and>
    wellformed (valueOffsets data) \<and> wellformed (valueOffsets ringData) \<and>
    indexes_into (valueOffsets data) (valueOffsets ringData)"
  then have "wellformed (map (\<lambda>x. valueOffsets ringData ! nat x) (valueOffsets data))"
    by (simp add: wellformed_resolved)
  then show "\<exists>R. getPolygonResolvedOffsets data = Inr R \<and> wellformed R"
    using a by (simp add: getPolygonResolvedOffsets_map resolve_level)
next
  assume a: "getMultiPolygonChild data = Some polygonData \<and> getPolygonChild polygonData = Some ringData' \<and>
    wellformed (valueOffsets data) \<and> wellformed (valueOffsets polygonData) \<and>
    wellformed (valueOffsets ringData') \<and>
    indexes_into (valueOffsets data) (valueOffsets polygonData) \<and>
    indexes_into (valueOffsets polygonData) (valueOffsets ringData')"
  let ?mid = "map (\<lambda>x. valueOffsets polygonData ! nat x) (valueOffsets data)"
  have m: "wellformed ?mid" using a by (simp add: wellformed_resolved)
  have i: "indexes_into ?mid (valueOffsets ringData')"
    using a by (simp add: indexes_into_resolved)
  have n: "wellformed (valueOffsets ringData')" using a by simp
  have "wellformed (map (\<lambda>y. valueOffsets ringData' ! nat y) ?mid)"
    using m n i by (rule wellformed_resolved)
  then have "wellformed (map (\<lambda>y. ToInt32 (js_get (valueOffsets ringData') y)) ?mid)"
    by (simp only: resolve_level [OF i])
  moreover have "getMultiPolygonResolvedOffsets data
                   = Inr (map (\<lambda>y. ToInt32 (js_get (valueOffsets ringData') y)) ?mid)"
    using a by (simp only: getMultiPolygonResolvedOffsets_map resolve_two_levels)
  ultimately show "\<exists>R. getMultiPolygonResolvedOffsets data = Inr R \<and> wellformed R"
    by simp
qed

theorem resolved_offsets_wellformed_witness:
  "getPolygonChild scenario_multipolygon = Some scenario_polygon \<and>
   getPolygonChild scenario_polygon = Some scenario_rings \<and>
   getMultiPolygonChild scenario_multipolygon = Some scenario_polygon \<and>
   wellformed (valueOffsets scenario_multipolygon) \<and>
   wellformed (valueOffsets scenario_polygon) \<and>
   wellformed (valueOffsets scenario_rings) \<and>
   indexes_into (valueOffsets scenario_multipolygon) (valueOffsets scenario_polygon) \<and>
   indexes_into (valueOffsets scenario_polygon) (valueOffsets scenario_rings) \<and>
   (\<exists>R. getPolygonResolvedOffsets scenario_multipolygon = Inr R \<and> wellformed R) \<and>
   (\<exists>R. getMultiPolygonResolvedOffsets scenario_multipolygon = Inr R \<and> wellformed R)"
  using resolved_offsets_wellformed [of scenario_multipolygon scenario_polygon scenario_polygon
          scenario_rings]
  by (simp add: scenario_multipolygon_def scenario_polygon_def scenario_rings_def
        getPolygonChild_def getMultiPolygonChild_def js_get_def indexes_into_def wellformed_def)


section \<open>encodePickingColors\<close>

lemma length_ta_set: "length (ta_set xs i v) = length xs"
  by (simp add: ta_set_def)

text \<open>
  C1. The claim asks for a buffer of length \<open>3 * last R\<close> holding the color of feature
  \<open>f\<close> at the three bytes of every coordinate of \<open>f\<close>. The source allocates
  \<^verbatim>\<open>new Uint8ClampedArray(largestOffset)\<close>, one byte per coordinate, and the writes at
  \<open>offset * 3 + k\<close> beyond that length are dropped: for the offsets \<open>[0, 2]\<close> the
  buffer has 2 bytes, not 6, whatever the encoder is, and with the encoder of the host
  library it is \<open>[1, 0]\<close>, not \<open>[1, 0, 0, 1, 0, 0]\<close>.
\<close>

theorem encodePickingColors_buffer_too_short:
  "encodePickingColors [0, 2] layerEncodePickingColor
     = Inr \<lparr>ctor = Uint8ClampedArray, elems = [1, 0]\<rparr> \<and>
   map_sum id (\<lambda>out. (ctor out, length (elems out))) (encodePickingColors [0, 2] enc)
     = Inr (Uint8ClampedArray, 2)"
proof
  show "encodePickingColors [0, 2] layerEncodePickingColor
          = Inr \<lparr>ctor = Uint8ClampedArray, elems = [1, 0]\<rparr>"
    by code_simp
  show "map_sum id (\<lambda>out. (ctor out, length (elems out))) (encodePickingColors [0, 2] enc)
          = Inr (Uint8ClampedArray, 2)"
    by (simp add: encodePickingColors_def js_get_def new_elems_def Let_def upto.simps
          length_ta_set)
qed

section \<open>assignAccessor\<close>

lemma js_get_nat: "k < length xs \<Longrightarrow> js_get xs (int k) = Some (xs ! k)"
  by (simp add: js_get_def)

text \<open>
  C7 as stated fails for a vector whose chunk is neither a fixed-size list nor a float
  column: nothing is assigned for the integer column, with or without offsets.
\<close>

theorem assignAccessor_int_vector_counterexample:
  "assignAccessor 0 scenario_props ''getElevation'' (Vector [scenario_int_column]) 0 None
     = Inr scenario_props \<and>
   attributes scenario_props ''getElevation'' = None"
  by (simp add: assignAccessor_def scenario_props_def scenario_int_column_def js_get_def)

text \<open>
  C7, amended. \<^verbatim>\<open>assignAccessor\<close> assigns nothing when \<^verbatim>\<open>propInput\<close> is
  \<^verbatim>\<open>undefined\<close>; it assigns any other value that is not a vector to the named prop;
  and for a vector whose chunk at \<^verbatim>\<open>chunkIdx\<close> is a fixed-size list (with its one
  child) or a float column it assigns the chunk's values to the attribute set, directly
  when no offsets are supplied and expanded by \<^verbatim>\<open>expandArrayToCoords\<close> when they are
  (an error of the expansion is the error of the call).
\<close>

theorem assignAccessor_routing:
  "assignAccessor u props name Undefined k offs = Inr props \<and>
   assignAccessor u props name (Value v) k offs
     = Inr (props\<lparr>toplevel := (toplevel props)(name \<mapsto> v)\<rparr>) \<and>
   (js_get chunks k = Some columnData \<and> typeId columnData = FixedSizeList \<and>
    children columnData = [child] \<longrightarrow>
      assignAccessor u props name (Vector chunks) k None
        = Inr (props\<lparr>attributes := (attributes props)(name \<mapsto>
                 \<lparr>attr_value = values' child, attr_size = listSize columnData,
                  normalized = Some True\<rparr>)\<rparr>) \<and>
      (\<forall>g. assignAccessor u props name (Vector chunks) k (Some g)
         = (case expandArrayToCoords u (values' child) (listSize columnData) g of
              Inl e \<Rightarrow> Inl e
            | Inr expanded \<Rightarrow>
                Inr (props\<lparr>attributes := (attributes props)(name \<mapsto>
                       \<lparr>attr_value = expanded, attr_size = listSize columnData,
                        normalized = Some True\<rparr>)\<rparr>)))) \<and>
   (js_get chunks' k' = Some columnData' \<and> typeId columnData' = Float \<longrightarrow>
      assignAccessor u props name (Vector chunks') k' None
        = Inr (props\<lparr>attributes := (attributes props)(name \<mapsto>
                 \<lparr>attr_value = values' columnData', attr_size = 1, normalized = None\<rparr>)\<rparr>) \<and>
      (\<forall>g. assignAccessor u props name (Vector chunks') k' (Some g)
         = (case expandArrayToCoords u (values' columnData') 1 g of
              Inl e \<Rightarrow> Inl e
            | Inr expanded \<Rightarrow>
                Inr (props\<lparr>attributes := (attributes props)(name \<mapsto>
                       \<lparr>attr_value = expanded, attr_size = 1, normalized = None\<rparr>)\<rparr>))))"
  by (simp add: assignAccessor_def)

theorem assignAccessor_routing_witness:
  "js_get [scenario_color_column] 0 = Some scenario_color_column \<and>
   typeId scenario_color_column = FixedSizeList \<and>
   children scenario_color_column
     = [Data Float 0 [] \<lparr>ctor = Float32Array, elems = [1, 0, 0, 0, 1, 0]\<rparr> []] \<and>
   js_get [scenario_float_column] 0 = Some scenario_float_column \<and>
   typeId scenario_float_column = Float \<and>
   assignAccessor 0 scenario_props ''getFillColor'' (Vector [scenario_color_column]) 0 None
     = Inr (scenario_props\<lparr>attributes := (attributes scenario_props)(''getFillColor'' \<mapsto>
              \<lparr>attr_value = \<lparr>ctor = Float32Array, elems = [1, 0, 0, 0, 1, 0]\<rparr>,
               attr_size = 3, normalized = Some True\<rparr>)\<rparr>) \<and>
   assignAccessor 0 scenario_props ''getFillColor'' (Vector [scenario_float_column]) 0 None
     = Inr (scenario_props\<lparr>attributes := (attributes scenario_props)(''getFillColor'' \<mapsto>
              \<lparr>attr_value = \<lparr>ctor = Float32Array, elems = [10, 20]\<rparr>,
               attr_size = 1, normalized = None\<rparr>)\<rparr>)"
  using assignAccessor_routing [of 0 scenario_props "''getFillColor''" 0 None 0
          "[scenario_color_column]" scenario_color_column
          "Data Float 0 [] \<lparr>ctor = Float32Array, elems = [1, 0, 0, 0, 1, 0]\<rparr> []"
          "[scenario_float_column]" 0 scenario_float_column]
  by (simp add: scenario_color_column_def scenario_float_column_def js_get_def)

text \<open>
  C9. For a vector whose chunk at \<^verbatim>\<open>chunkIdx\<close> is neither a fixed-size list nor a float
  column, \<^verbatim>\<open>assignAccessor\<close> returns without an error and leaves the props as they
  were.
\<close>

theorem assignAccessor_unsupported_vector:
  "js_get chunks k = Some columnData \<Longrightarrow> typeId columnData \<noteq> FixedSizeList \<Longrightarrow>
   typeId columnData \<noteq> Float \<Longrightarrow>
   assignAccessor u props name (Vector chunks) k offs = Inr props"
  by (simp add: assignAccessor_def)

theorem assignAccessor_unsupported_vector_witness:
  "js_get [scenario_float_column, scenario_int_column] 1 = Some scenario_int_column \<and>
   typeId scenario_int_column \<noteq> FixedSizeList \<and> typeId scenario_int_column \<noteq> Float \<and>
   assignAccessor 0 scenario_props ''getFillColor''
       (Vector [scenario_float_column, scenario_int_column]) 1 (Some [0, 2, 5])
     = Inr scenario_props"
proof -
  have g: "js_get [scenario_float_column, scenario_int_column] 1 = Some scenario_int_column"
    by (simp add: js_get_def)
  have t: "typeId scenario_int_column \<noteq> FixedSizeList" "typeId scenario_int_column \<noteq> Float"
    by (simp_all add: scenario_int_column_def)
  show ?thesis
    using g t assignAccessor_unsupported_vector [OF g t, of 0 scenario_props "''getFillColor''"
            "Some [0, 2, 5]"]
    by simp
qed

text \<open>
  C10. Whenever \<^verbatim>\<open>assignAccessor\<close> assigns a vector whose chunk is a fixed-size list,
  the attribute has \<^verbatim>\<open>normalized: true\<close>, whatever the child's element type is;
  whenever it assigns a float column, the attribute has no \<^verbatim>\<open>normalized\<close> key.
\<close>

theorem assignAccessor_normalized:
  "(js_get chunks k = Some columnData \<and> typeId columnData = FixedSizeList \<and>
    assignAccessor u props name (Vector chunks) k offs = Inr props' \<longrightarrow>
      map_option normalized (attributes props' name) = Some (Some True)) \<and>
   (js_get chunks' k' = Some columnData' \<and> typeId columnData' = Float \<and>
    assignAccessor u props name (Vector chunks') k' offs' = Inr props'' \<longrightarrow>
      map_option normalized (attributes props'' name) = Some None)"
proof (intro conjI impI)
  assume a: "js_get chunks k = Some columnData \<and> typeId columnData = FixedSizeList \<and>
    assignAccessor u props name (Vector chunks) k offs = Inr props'"
  define vals where "vals =
    (case offs of
       None \<Rightarrow> Inr (values' (children columnData ! 0))
     | Some g \<Rightarrow> expandArrayToCoords u (values' (children columnData ! 0)) (listSize columnData) g)"
  have eq: "assignAccessor u props name (Vector chunks) k offs =
     (if length (children columnData) \<noteq> 1 then Inl AssertionError
      else case vals of
        Inl e \<Rightarrow> Inl e
      | Inr x \<Rightarrow> Inr (props\<lparr>attributes := (attributes props)(name \<mapsto>
                     \<lparr>attr_value = x, attr_size = listSize columnData,
                      normalized = Some True\<rparr>)\<rparr>))"
    using a by (simp add: assignAccessor_def vals_def)
  show "map_option normalized (attributes props' name) = Some (Some True)"
  proof (cases vals)
    case (Inl e)
    then show ?thesis using eq a by (simp split: if_splits)
  next
    case (Inr x)
    then have "props' = props\<lparr>attributes := (attributes props)(name \<mapsto>
                     \<lparr>attr_value = x, attr_size = listSize columnData,
                      normalized = Some True\<rparr>)\<rparr>"
      using eq a by (simp split: if_splits)
    then show ?thesis by simp
  qed
next
  assume a: "js_get chunks' k' = Some columnData' \<and> typeId columnData' = Float \<and>
    assignAccessor u props name (Vector chunks') k' offs' = Inr props''"
  define vals where "vals =
    (case offs' of
       None \<Rightarrow> Inr (values' columnData')
     | Some g \<Rightarrow> expandArrayToCoords u (values' columnData') 1 g)"
  have eq: "assignAccessor u props name (Vector chunks') k' offs' =
     (case vals of
        Inl e \<Rightarrow> Inl e
      | Inr x \<Rightarrow> Inr (props\<lparr>attributes := (attributes props)(name \<mapsto>
                     \<lparr>attr_value = x, attr_size = 1, normalized = None\<rparr>)\<rparr>))"
    using a by (simp add: assignAccessor_def vals_def)
  show "map_option normalized (attributes props'' name) = Some None"
  proof (cases vals)
    case (Inl e)
    then show ?thesis using eq a by simp
  next
    case (Inr x)
    then have "props'' = props\<lparr>attributes := (attributes props)(name \<mapsto>
                     \<lparr>attr_value = x, attr_size = 1, normalized = None\<rparr>)\<rparr>"
      using eq a by simp
    then show ?thesis by simp
  qed
qed

theorem assignAccessor_normalized_witness:
  "js_get [scenario_color_column] 0 = Some scenario_color_column \<and>
   typeId scenario_color_column = FixedSizeList \<and>
   ctor (values' (children scenario_color_column ! 0)) = Float32Array \<and>
   js_get [scenario_float_column] 0 = Some scenario_float_column \<and>
   typeId scenario_float_column = Float \<and>
   (\<exists>p. assignAccessor 0 scenario_props ''getFillColor'' (Vector [scenario_color_column]) 0 None
          = Inr p \<and>
        map_option normalized (attributes p ''getFillColor'') = Some (Some True)) \<and>
   (\<exists>p. assignAccessor 0 scenario_props ''getFillColor'' (Vector [scenario_float_column]) 0 None
          = Inr p \<and>
        map_option normalized (attributes p ''getFillColor'') = Some None)"
proof -
  let ?c = "scenario_props\<lparr>attributes := (attributes scenario_props)(''getFillColor'' \<mapsto>
              \<lparr>attr_value = \<lparr>ctor = Float32Array, elems = [1, 0, 0, 0, 1, 0]\<rparr>,
               attr_size = 3, normalized = Some True\<rparr>)\<rparr>"
  let ?f = "scenario_props\<lparr>attributes := (attributes scenario_props)(''getFillColor'' \<mapsto>
              \<lparr>attr_value = \<lparr>ctor = Float32Array, elems = [10, 20]\<rparr>,
               attr_size = 1, normalized = None\<rparr>)\<rparr>"
  have h: "js_get [scenario_color_column] 0 = Some scenario_color_column"
    "typeId scenario_color_column = FixedSizeList"
    "ctor (values' (children scenario_color_column ! 0)) = Float32Array"
    "js_get [scenario_float_column] 0 = Some scenario_float_column"
    "typeId scenario_float_column = Float"
    by (simp_all add: scenario_color_column_def scenario_float_column_def js_get_def)
  have rc: "assignAccessor 0 scenario_props ''getFillColor'' (Vector [scenario_color_column]) 0 None
              = Inr ?c"
    by (simp add: assignAccessor_def scenario_color_column_def js_get_def)
  have rf: "assignAccessor 0 scenario_props ''getFillColor'' (Vector [scenario_float_column]) 0 None
              = Inr ?f"
    by (simp add: assignAccessor_def scenario_float_column_def js_get_def)
  note t = assignAccessor_normalized [of "[scenario_color_column]" 0 scenario_color_column
             0 scenario_props "''getFillColor''" None ?c
             "[scenario_float_column]" 0 scenario_float_column None ?f]
  have "map_option normalized (attributes ?c ''getFillColor'') = Some (Some True)"
    using t h rc by blast
  moreover have "map_option normalized (attributes ?f ''getFillColor'') = Some None"
    using t h rf by blast
  ultimately show ?thesis using h rc rf by blast
qed


section \<open>getPickingInfo\<close>

lemma chunk_offsets_get:
  "chunk_offsets table \<Longrightarrow> b < length (batches table) \<Longrightarrow>
     js_get (table_offsets table) (int b) = Some (int (cumulative_count table b))"
proof -
  assume c: "chunk_offsets table" and b: "b < length (batches table)"
  have "table_offsets table ! b = int (cumulative_count table b)"
    using b by (simp add: c [unfolded chunk_offsets_def] nth_append del: upt_Suc)
  moreover have "b < length (table_offsets table)"
    using b by (simp add: c [unfolded chunk_offsets_def])
  ultimately show ?thesis by (simp add: js_get_def)
qed

text \<open>
  C8. For a picking query on batch \<open>b\<close> of the table (the rendered index \<open>i\<close> is an
  index of the inverted-offsets buffer when there is one, and \<^verbatim>\<open>_offsets\<close> holds the
  cumulative batch lengths), \<^verbatim>\<open>getPickingInfo\<close> returns as index the rendered index,
  mapped through the inverted-offsets buffer when the sub-layer has one, plus the number
  of rows of the batches before \<open>b\<close>. The arc layer has no inverted-offsets buffer.
\<close>

theorem getPickingInfo_global_index:
  assumes b: "recordBatchIdx sourceLayer = int b" "b < length (batches table)"
    and c: "chunk_offsets table"
    and i: "index info = Some i"
    and inv: "\<forall>inverted. invertedGeomOffsets sourceLayer = Some inverted
                \<longrightarrow> 0 \<le> i \<and> i < int (length (elems inverted))"
  shows "(\<exists>out. SolidPolygon_getPickingInfo table info sourceLayer = Inr out \<and>
            index out =
              Some ((case invertedGeomOffsets sourceLayer of
                       None \<Rightarrow> i
                     | Some inverted \<Rightarrow> elems inverted ! nat i)
                    + int (cumulative_count table b))) \<and>
         (\<exists>out. Arc_getPickingInfo table info sourceLayer = Inr out \<and>
            index out = Some (i + int (cumulative_count table b)))"
proof -
  have batch: "js_get (batches table) (recordBatchIdx sourceLayer) = Some (batches table ! b)"
    using b by (simp add: js_get_nat)
  have off: "js_get (table_offsets table) (recordBatchIdx sourceLayer)
               = Some (int (cumulative_count table b))"
    using b c by (simp add: chunk_offsets_get)
  have arc: "\<exists>out. Arc_getPickingInfo table info sourceLayer = Inr out \<and>
            index out = Some (i + int (cumulative_count table b))"
    by (simp add: Arc_getPickingInfo_def batch off i js_add_def Let_def)
  have solid: "\<exists>out. SolidPolygon_getPickingInfo table info sourceLayer = Inr out \<and>
            index out =
              Some ((case invertedGeomOffsets sourceLayer of
                       None \<Rightarrow> i
                     | Some inverted \<Rightarrow> elems inverted ! nat i)
                    + int (cumulative_count table b))"
  proof (cases "invertedGeomOffsets sourceLayer")
    case None
    then show ?thesis
      by (simp add: SolidPolygon_getPickingInfo_def batch off i js_add_def Let_def)
  next
    case (Some inverted)
    then have "js_get (elems inverted) i = Some (elems inverted ! nat i)"
      using inv by (simp add: js_get_def)
    then show ?thesis using Some
      by (simp add: SolidPolygon_getPickingInfo_def batch off i js_add_def Let_def)
  qed
  show ?thesis using solid arc by simp
qed

theorem getPickingInfo_global_index_witness:
  "recordBatchIdx scenario_sublayer = int 1 \<and> 1 < length (batches scenario_table) \<and>
   chunk_offsets scenario_table \<and>
   index \<lparr>index = Some 2, object = None\<rparr> = Some 2 \<and>
   invertedGeomOffsets scenario_sublayer = Some \<lparr>ctor = Uint8Array, elems = [0, 0, 1]\<rparr> \<and>
   (2::int) < int (length [0, 0, 1 :: int]) \<and>
   (\<exists>out. SolidPolygon_getPickingInfo scenario_table \<lparr>index = Some 2, object = None\<rparr>
             scenario_sublayer = Inr out \<and> index out = Some 4) \<and>
   (\<exists>out. Arc_getPickingInfo scenario_table \<lparr>index = Some 2, object = None\<rparr>
             scenario_sublayer = Inr out \<and> index out = Some 5)"
proof -
  have b: "recordBatchIdx scenario_sublayer = int 1" "1 < length (batches scenario_table)"
    by (simp_all add: scenario_sublayer_def scenario_table_def)
  have cc: "cumulative_count scenario_table 0 = 0" "cumulative_count scenario_table (Suc 0) = 3"
    "cumulative_count scenario_table 2 = 5"
    by (simp_all add: cumulative_count_def scenario_table_def numeral_2_eq_2)
  have u: "[0..<3] = [0, 1, 2]" by (simp add: upt_rec)
  have t: "length (batches scenario_table) = 2" "table_offsets scenario_table = [0, 3, 5]"
    by (simp_all add: scenario_table_def)
  have c: "chunk_offsets scenario_table"
    by (simp add: chunk_offsets_def t u cc)
  have i: "index \<lparr>index = Some 2, object = (None :: int option option)\<rparr> = Some 2" by simp
  have inv: "\<forall>inverted. invertedGeomOffsets scenario_sublayer = Some inverted
        \<longrightarrow> 0 \<le> (2::int) \<and> 2 < int (length (elems inverted))"
    by (simp add: scenario_sublayer_def)
  have s: "(case invertedGeomOffsets scenario_sublayer of None \<Rightarrow> 2
            | Some inverted \<Rightarrow> elems inverted ! nat 2) = 1"
    by (simp add: scenario_sublayer_def)
  have v: "invertedGeomOffsets scenario_sublayer = Some \<lparr>ctor = Uint8Array, elems = [0, 0, 1]\<rparr>"
    by (simp add: scenario_sublayer_def)
  show ?thesis
    using getPickingInfo_global_index [OF b c i inv] b c v
    by (simp add: s cc)
qed

end
